theory Spec2Isabelle
  imports
    Main
    "HOL-Library.Word"
    "HOL-Library.AList"
    "HOL-Library.Char_ord"
    "HOL-Library.List_Lexorder"
    "HOL-Library.Multiset"
begin

section \<open>The JSON encoder that \<^verbatim>\<open>Source\<close> calls\<close>

text \<open>
  \<^verbatim>\<open>bulk_string_request.go\<close> builds two Go maps of type \<^verbatim>\<open>map[string]interface{}\<close> and
  hands the outer one to \<^verbatim>\<open>json.Marshal\<close> of the Go standard library. A Go map is an
  association list here, written to with \<open>AList.update\<close> (an assignment \<^verbatim>\<open>m[k] = v\<close>
  replaces the entry of an existing key and adds one otherwise). The values that the
  request stores in its maps are strings, an \<^verbatim>\<open>int64\<close>, an \<^verbatim>\<open>int\<close> and the inner map.
  The \<^verbatim>\<open>int64\<close> is a 64-bit word read as signed. The \<^verbatim>\<open>int\<close>, whose width depends on the
  platform, is an integer: the request stores and prints it and computes nothing with it.
\<close>

datatype jvalue =
    JString string
  | JInt64 "64 word"
  | JInt int
  | JMap "(string \<times> jvalue) list"

text \<open>
  \<^verbatim>\<open>json.Marshal\<close> writes a map as a JSON object whose members are sorted by key, keys
  compared as byte strings (the order of \<open>string\<close> with \<open>Char_ord\<close> and \<open>List_Lexorder\<close>).
  The encoder is modelled in the two phases it has: \<open>ordered\<close> fixes the order of the
  members at every level, \<open>compact\<close> writes the ordered tree from left to right with no
  white space.
\<close>

datatype ojson =
    OString string
  | ONumber int
  | OObject "(string \<times> ojson) list"

primrec ordered :: "jvalue \<Rightarrow> ojson" where
  "ordered (JString s) = OString s"
| "ordered (JInt64 w) = ONumber (sint w)"
| "ordered (JInt n) = ONumber n"
| "ordered (JMap m) = OObject (sort_key fst (map (map_prod id ordered) m))"

text \<open>\<^verbatim>\<open>strings.Join(elems, sep)\<close>.\<close>

fun join :: "string list \<Rightarrow> string \<Rightarrow> string" where
  "join [] sep = []"
| "join [x] sep = x"
| "join (x # y # ys) sep = x @ sep @ join (y # ys) sep"

text \<open>Integers are written in decimal, with a minus sign when negative.\<close>

definition digit :: "nat \<Rightarrow> char" where
  "digit d = ''0123456789'' ! d"

function dec_nat :: "nat \<Rightarrow> string" where
  "dec_nat n = (if n < 10 then [digit n] else dec_nat (n div 10) @ [digit (n mod 10)])"
  by pat_completeness auto
termination
  by (relation "measure id") auto

declare dec_nat.simps [simp del]

definition dec_int :: "int \<Rightarrow> string" where
  "dec_int i = (if i < 0 then CHR ''-'' # dec_nat (nat (- i)) else dec_nat (nat i))"

text \<open>
  The string-literal encoder of \<^verbatim>\<open>encoding/json\<close> (quoting, escaping, coercion to valid
  UTF-8) is the parameter \<open>q\<close>: it belongs to the standard library, its escape table
  differs between Go releases, and nothing below depends on it.
\<close>

primrec compact :: "(string \<Rightarrow> string) \<Rightarrow> ojson \<Rightarrow> string" where
  "compact q (OString s) = q s"
| "compact q (ONumber n) = dec_int n"
| "compact q (OObject kvs) =
     ''{'' @ join (map (\<lambda>(k, t). q k @ '':'' @ t) (map (map_prod id (compact q)) kvs)) '','' @ ''}''"

text \<open>
  \<^verbatim>\<open>json.Marshal\<close> returns the text or an error. On the values of \<open>jvalue\<close> it has no
  error to return: strings, integers and maps with string keys are all supported.
\<close>

definition json_Marshal :: "(string \<Rightarrow> string) \<Rightarrow> jvalue \<Rightarrow> string + string" where
  "json_Marshal q v = Inr (compact q (ordered v))"

text \<open>The keys of an ordered tree ascend strictly at every nesting level.\<close>

fun keys_ascending :: "ojson \<Rightarrow> bool" where
  "keys_ascending (OObject kvs) =
     (sorted_wrt (<) (map fst kvs) \<and> list_all keys_ascending (map snd kvs))"
| "keys_ascending _ = True"

section \<open>The request\<close>

text \<open>
  The field \<^verbatim>\<open>doc interface{}\<close> holds any Go value. \<^verbatim>\<open>Source\<close> tells six cases apart:
  the nil interface, \<^verbatim>\<open>json.RawMessage\<close>, \<^verbatim>\<open>*json.RawMessage\<close>, \<^verbatim>\<open>string\<close>, \<^verbatim>\<open>*string\<close> and
  everything else. A pointer is \<open>None\<close> when nil; an interface that holds a nil pointer
  is not the nil interface. A byte slice and a string are both a \<open>string\<close> (a list of
  bytes).

  The record has the fields of the struct but the embedded interface \<^verbatim>\<open>BulkableRequest\<close>,
  which no method reads. The fields \<^verbatim>\<open>typ\<close> and \<^verbatim>\<open>id\<close> are \<open>typ_r\<close> and \<open>id_r\<close>, and the
  method \<^verbatim>\<open>Id\<close> is \<open>Id_r\<close>. A nil \<^verbatim>\<open>retryOnConflict\<close> or \<^verbatim>\<open>source\<close> is \<open>None\<close>.
\<close>

datatype 'a payload =
    NoDoc
  | Structured 'a
  | RawMessage string
  | RawMessagePtr "string option"
  | StringDoc string
  | StringPtr "string option"

record 'a BulkStringRequest =
  index :: string
  typ_r :: string
  id_r :: string
  opType :: string
  routing :: string
  parent :: string
  version :: "64 word"
  versionType :: string
  doc :: "'a payload"
  pipeline :: string
  retryOnConflict :: "int option"
  ttl :: string
  source :: "string list option"

definition NewBulkStringRequest :: "'a BulkStringRequest" where
  "NewBulkStringRequest =
     \<lparr>index = [], typ_r = [], id_r = [], opType = ''index'', routing = [], parent = [],
      version = 0, versionType = [], doc = NoDoc, pipeline = [], retryOnConflict = None,
      ttl = [], source = None\<rparr>"

definition Index :: "'a BulkStringRequest \<Rightarrow> string \<Rightarrow> 'a BulkStringRequest" where
  "Index r v = r\<lparr>index := v, source := None\<rparr>"

definition Type :: "'a BulkStringRequest \<Rightarrow> string \<Rightarrow> 'a BulkStringRequest" where
  "Type r v = r\<lparr>typ_r := v, source := None\<rparr>"

definition Id_r :: "'a BulkStringRequest \<Rightarrow> string \<Rightarrow> 'a BulkStringRequest" where
  "Id_r r v = r\<lparr>id_r := v, source := None\<rparr>"

definition OpType :: "'a BulkStringRequest \<Rightarrow> string \<Rightarrow> 'a BulkStringRequest" where
  "OpType r v = r\<lparr>opType := v, source := None\<rparr>"

definition Routing :: "'a BulkStringRequest \<Rightarrow> string \<Rightarrow> 'a BulkStringRequest" where
  "Routing r v = r\<lparr>routing := v, source := None\<rparr>"

definition Parent :: "'a BulkStringRequest \<Rightarrow> string \<Rightarrow> 'a BulkStringRequest" where
  "Parent r v = r\<lparr>parent := v, source := None\<rparr>"

definition Version :: "'a BulkStringRequest \<Rightarrow> 64 word \<Rightarrow> 'a BulkStringRequest" where
  "Version r v = r\<lparr>version := v, source := None\<rparr>"

definition VersionType :: "'a BulkStringRequest \<Rightarrow> string \<Rightarrow> 'a BulkStringRequest" where
  "VersionType r v = r\<lparr>versionType := v, source := None\<rparr>"

definition Doc :: "'a BulkStringRequest \<Rightarrow> 'a payload \<Rightarrow> 'a BulkStringRequest" where
  "Doc r v = r\<lparr>doc := v, source := None\<rparr>"

definition RetryOnConflict :: "'a BulkStringRequest \<Rightarrow> int \<Rightarrow> 'a BulkStringRequest" where
  "RetryOnConflict r v = r\<lparr>retryOnConflict := Some v, source := None\<rparr>"

definition TTL :: "'a BulkStringRequest \<Rightarrow> string \<Rightarrow> 'a BulkStringRequest" where
  "TTL r v = r\<lparr>ttl := v, source := None\<rparr>"

definition Pipeline :: "'a BulkStringRequest \<Rightarrow> string \<Rightarrow> 'a BulkStringRequest" where
  "Pipeline r v = r\<lparr>pipeline := v, source := None\<rparr>"

section \<open>Source and String\<close>

text \<open>A guarded assignment \<^verbatim>\<open>if c { m[k] = v }\<close>.\<close>

definition assign_if ::
  "bool \<Rightarrow> string \<Rightarrow> jvalue \<Rightarrow> (string \<times> jvalue) list \<Rightarrow> (string \<times> jvalue) list" where
  "assign_if c k v m = (if c then AList.update k v m else m)"

text \<open>
  The map \<^verbatim>\<open>indexCommand\<close>, filled by the ten guarded assignments of \<^verbatim>\<open>Source\<close> in
  their order. \<^verbatim>\<open>r.version > 0\<close> compares an \<^verbatim>\<open>int64\<close>: signed. The guard of
  \<^verbatim>\<open>_retry_on_conflict\<close> tests the pointer and the assignment reads through it.
\<close>

definition indexCommand :: "'a BulkStringRequest \<Rightarrow> (string \<times> jvalue) list" where
  "indexCommand r =
    (let m = [];
         m = assign_if (index r \<noteq> []) ''_index'' (JString (index r)) m;
         m = assign_if (typ_r r \<noteq> []) ''_type'' (JString (typ_r r)) m;
         m = assign_if (id_r r \<noteq> []) ''_id'' (JString (id_r r)) m;
         m = assign_if (routing r \<noteq> []) ''_routing'' (JString (routing r)) m;
         m = assign_if (parent r \<noteq> []) ''_parent'' (JString (parent r)) m;
         m = assign_if (0 <s version r) ''_version'' (JInt64 (version r)) m;
         m = assign_if (versionType r \<noteq> []) ''_version_type'' (JString (versionType r)) m;
         m = (case retryOnConflict r of
                None \<Rightarrow> m
              | Some n \<Rightarrow> AList.update ''_retry_on_conflict'' (JInt n) m);
         m = assign_if (ttl r \<noteq> []) ''_ttl'' (JString (ttl r)) m;
         m = assign_if (pipeline r \<noteq> []) ''pipeline'' (JString (pipeline r)) m
     in m)"

text \<open>The map \<^verbatim>\<open>command\<close>: its one entry is \<^verbatim>\<open>command[r.opType] = indexCommand\<close>.\<close>

definition command :: "'a BulkStringRequest \<Rightarrow> jvalue" where
  "command r = JMap (AList.update (opType r) (JMap (indexCommand r)) [])"

text \<open>
  A call either returns or panics. \<open>Error e\<close> is a returned non-nil \<^verbatim>\<open>error\<close> with
  message \<open>e\<close>; \<open>Panic\<close> is the run-time panic of dereferencing a nil pointer.
\<close>

datatype failure = Error string | Panic

text \<open>
  The second line, from \<^verbatim>\<open>r.doc\<close> (the type switch of \<^verbatim>\<open>Source\<close>). The parameter \<open>enc\<close>
  is \<^verbatim>\<open>json.Marshal\<close> on the structured payloads: \<open>Inl\<close> the error message, \<open>Inr\<close> the
  compact JSON text.
\<close>

definition docLine :: "('a \<Rightarrow> string + string) \<Rightarrow> 'a payload \<Rightarrow> failure + string" where
  "docLine enc d =
    (case d of
       NoDoc \<Rightarrow> Inr ''{}''
     | Structured v \<Rightarrow> (case enc v of Inl e \<Rightarrow> Inl (Error e) | Inr body \<Rightarrow> Inr body)
     | RawMessage t \<Rightarrow> Inr t
     | RawMessagePtr p \<Rightarrow> (case p of None \<Rightarrow> Inl Panic | Some t \<Rightarrow> Inr t)
     | StringDoc t \<Rightarrow> Inr t
     | StringPtr p \<Rightarrow> (case p of None \<Rightarrow> Inl Panic | Some t \<Rightarrow> Inr t))"

text \<open>
  \<^verbatim>\<open>Source\<close> returns the memoized lines when there are any; otherwise it encodes both
  lines, stores them in \<^verbatim>\<open>r.source\<close> and returns them. The result comes with the request
  as the call leaves it.
\<close>

definition Source ::
  "(string \<Rightarrow> string) \<Rightarrow> ('a \<Rightarrow> string + string) \<Rightarrow> 'a BulkStringRequest
     \<Rightarrow> (failure + string list) \<times> 'a BulkStringRequest" where
  "Source q enc r =
    (case source r of
       Some lines \<Rightarrow> (Inr lines, r)
     | None \<Rightarrow>
        (case json_Marshal q (command r) of
           Inl e \<Rightarrow> (Inl (Error e), r)
         | Inr line \<Rightarrow>
            (case docLine enc (doc r) of
               Inl f \<Rightarrow> (Inl f, r)
             | Inr body \<Rightarrow>
                (let lines = [line, body] in (Inr lines, r\<lparr>source := Some lines\<rparr>)))))"

text \<open>
  \<^verbatim>\<open>String\<close>: \<^verbatim>\<open>fmt.Sprintf("error: %v", err)\<close> writes the error's message after the
  prefix; a panic of \<^verbatim>\<open>Source\<close> is not recovered.
\<close>

definition String ::
  "(string \<Rightarrow> string) \<Rightarrow> ('a \<Rightarrow> string + string) \<Rightarrow> 'a BulkStringRequest
     \<Rightarrow> (failure + string) \<times> 'a BulkStringRequest" where
  "String q enc r =
    (case Source q enc r of
       (Inl (Error e), r') \<Rightarrow> (Inr (''error: '' @ e), r')
     | (Inl Panic, r') \<Rightarrow> (Inl Panic, r')
     | (Inr lines, r') \<Rightarrow> (Inr (join lines [CHR 0x0A]), r'))"

section \<open>Derived notions\<close>

text \<open>
  The members of the action object (the value under the top-level key) in the order in
  which \<^verbatim>\<open>json.Marshal\<close> writes them.
\<close>

definition actionObject :: "'a BulkStringRequest \<Rightarrow> (string \<times> ojson) list" where
  "actionObject r = sort_key fst (map (map_prod id ordered) (indexCommand r))"

text \<open>What \<^verbatim>\<open>Source\<close> computes from the fields when nothing is memoized.\<close>

definition encodeLines ::
  "(string \<Rightarrow> string) \<Rightarrow> ('a \<Rightarrow> string + string) \<Rightarrow> 'a BulkStringRequest
     \<Rightarrow> failure + string list" where
  "encodeLines q enc r = fst (Source q enc (r\<lparr>source := None\<rparr>))"

text \<open>
  The calls a client can make on a request, and the request after a sequence of calls
  on a new one: the reachable states.
\<close>

datatype 'a call =
    CallIndex string
  | CallType string
  | CallId string
  | CallOpType string
  | CallRouting string
  | CallParent string
  | CallVersion "64 word"
  | CallVersionType string
  | CallDoc "'a payload"
  | CallRetryOnConflict int
  | CallTTL string
  | CallPipeline string
  | CallSource
  | CallString

fun invoke ::
  "(string \<Rightarrow> string) \<Rightarrow> ('a \<Rightarrow> string + string) \<Rightarrow> 'a BulkStringRequest \<Rightarrow> 'a call
     \<Rightarrow> 'a BulkStringRequest" where
  "invoke q enc r (CallIndex v) = Index r v"
| "invoke q enc r (CallType v) = Type r v"
| "invoke q enc r (CallId v) = Id_r r v"
| "invoke q enc r (CallOpType v) = OpType r v"
| "invoke q enc r (CallRouting v) = Routing r v"
| "invoke q enc r (CallParent v) = Parent r v"
| "invoke q enc r (CallVersion v) = Version r v"
| "invoke q enc r (CallVersionType v) = VersionType r v"
| "invoke q enc r (CallDoc v) = Doc r v"
| "invoke q enc r (CallRetryOnConflict v) = RetryOnConflict r v"
| "invoke q enc r (CallTTL v) = TTL r v"
| "invoke q enc r (CallPipeline v) = Pipeline r v"
| "invoke q enc r CallSource = snd (Source q enc r)"
| "invoke q enc r CallString = snd (String q enc r)"

definition run ::
  "(string \<Rightarrow> string) \<Rightarrow> ('a \<Rightarrow> string + string) \<Rightarrow> 'a call list \<Rightarrow> 'a BulkStringRequest" where
  "run q enc cs = foldl (invoke q enc) NewBulkStringRequest cs"

fun is_setter :: "'a call \<Rightarrow> bool" where
  "is_setter CallSource = False"
| "is_setter CallString = False"
| "is_setter _ = True"

subsection \<open>Sample encoders\<close>

text \<open>
  A string-literal encoder for the examples: it agrees with \<^verbatim>\<open>encoding/json\<close> on strings
  of printable ASCII characters other than \<^verbatim>\<open><\<close>, \<^verbatim>\<open>>\<close> and \<^verbatim>\<open>&\<close>.
\<close>

fun esc :: "string \<Rightarrow> string" where
  "esc [] = []"
| "esc (c # cs) = (if c = CHR 0x22 \<or> c = CHR 0x5C then [CHR 0x5C, c] else [c]) @ esc cs"

definition quote :: "string \<Rightarrow> string" where
  "quote s = CHR 0x22 # esc s @ [CHR 0x22]"

text \<open>
  Structured payloads for the examples: the \<^verbatim>\<open>employee\<close> struct of the test file, whose
  fields \<^verbatim>\<open>User\<close>, \<^verbatim>\<open>City\<close> and \<^verbatim>\<open>Age\<close> are written as \<^verbatim>\<open>user\<close>, \<^verbatim>\<open>city\<close> and \<^verbatim>\<open>age\<close> in
  this order, and a channel, which \<^verbatim>\<open>json.Marshal\<close> rejects.
\<close>

datatype sample = Employee string string int | Channel

fun sample_Marshal :: "sample \<Rightarrow> string + string" where
  "sample_Marshal (Employee u c a) =
     Inr (''{'' @ quote ''user'' @ '':'' @ quote u @ '','' @ quote ''city'' @ '':'' @ quote c
          @ '','' @ quote ''age'' @ '':'' @ dec_int a @ ''}'')"
| "sample_Marshal Channel = Inl ''json: unsupported type: chan int''"

text \<open>A sequence of calls for the examples; it encodes once in the middle.\<close>

definition calls1 :: "sample call list" where
  "calls1 = [CallPipeline ''p1'', CallOpType ''create'', CallIndex ''index101'',
     CallType ''employee'', CallSource, CallId ''1'', CallRetryOnConflict 0,
     CallDoc (Structured (Employee ''olivere'' ''santafe'' 56))]"

text \<open>The two lines that \<^verbatim>\<open>Source\<close> returns after these calls.\<close>

definition lines1 :: "string list" where
  \<open>lines1 = [''{"create":{"_id":"1","_index":"index101","_retry_on_conflict":0,"_type":"employee","pipeline":"p1"}}'',
     ''{"user":"olivere","city":"santafe","age":56}'']\<close>

subsection \<open>Notions of the specification\<close>

text \<open>The key table of the specification: the JSON keys an action object may have.\<close>

definition key_table :: "string list" where
  "key_table = [''_index'', ''_type'', ''_id'', ''_routing'', ''_parent'', ''_version'',
     ''_version_type'', ''_retry_on_conflict'', ''_ttl'', ''pipeline'']"

text \<open>
  The cache is correct or absent: the memoized lines, when there are any, are the
  encoding of the fields.
\<close>

definition cache_ok ::
  "(string \<Rightarrow> string) \<Rightarrow> ('a \<Rightarrow> string + string) \<Rightarrow> 'a BulkStringRequest \<Rightarrow> bool" where
  "cache_ok q enc r =
     (case source r of None \<Rightarrow> True | Some ls \<Rightarrow> encodeLines q enc r = Inr ls)"

section \<open>Lemmas\<close>

subsection \<open>Maps and their ordered members\<close>

lemma map_of_assign_if:
  "map_of (assign_if c k v m) k' = (if c \<and> k' = k then Some v else map_of m k')"
  by (simp add: assign_if_def update_conv')

lemma distinct_assign_if:
  "distinct (map fst (assign_if c k v m)) = distinct (map fst m)"
  by (simp add: assign_if_def update_keys)

lemma distinct_update_iff:
  "distinct (map fst (AList.update k v m)) = distinct (map fst m)"
  by (simp add: update_keys)

lemma distinct_indexCommand: "distinct (map fst (indexCommand r))"
  by (simp add: indexCommand_def Let_def distinct_assign_if distinct_update_iff
      split: option.split)

lemma distinct_keys_sort_key:
  "distinct (map fst (sort_key fst m)) = distinct (map fst m)"
proof -
  have "mset (map fst (sort_key fst m)) = mset (map fst m)"
    by simp
  then show ?thesis
    by (rule mset_eq_imp_distinct_iff)
qed

lemma map_of_sort_key:
  "distinct (map fst m) \<Longrightarrow> map_of (sort_key fst m) = map_of m"
  by (rule map_of_inject_set [THEN iffD2]) (simp_all add: distinct_keys_sort_key)

lemma strict_sorted_sort_key:
  "distinct (map fst m) \<Longrightarrow> sorted_wrt (<) (map fst (sort_key fst m))"
  by (simp add: strict_sorted_iff distinct_keys_sort_key)

lemma map_fst_map_prod: "map fst (map (map_prod id f) m) = map fst m"
  by (induction m) auto

lemma map_of_map_prod: "map_of (map (map_prod id f) m) k = map_option f (map_of m k)"
  by (induction m) auto

lemma distinct_actionObject: "distinct (map fst (actionObject r))"
  by (simp add: actionObject_def distinct_keys_sort_key map_fst_map_prod distinct_indexCommand)

lemma sorted_actionObject: "sorted_wrt (<) (map fst (actionObject r))"
  unfolding actionObject_def
  by (rule strict_sorted_sort_key) (simp add: map_fst_map_prod distinct_indexCommand)

lemma map_of_actionObject:
  "map_of (actionObject r) k = map_option ordered (map_of (indexCommand r) k)"
proof -
  have "distinct (map fst (map (map_prod id ordered) (indexCommand r)))"
    by (simp add: map_fst_map_prod distinct_indexCommand)
  then show ?thesis
    by (simp add: actionObject_def map_of_sort_key map_of_map_prod)
qed

lemma member_actionObject:
  "(k, v) \<in> set (actionObject r) \<longleftrightarrow> map_of (actionObject r) k = Some v"
  by (simp add: distinct_actionObject)

lemma ordered_command:
  "ordered (command r) = OObject [(opType r, OObject (actionObject r))]"
  by (simp add: command_def actionObject_def)

lemmas lookup_simps =
  map_of_actionObject indexCommand_def Let_def map_of_assign_if update_conv'

lemma lookup_index:
  "map_of (actionObject r) ''_index'' = (if index r = [] then None else Some (OString (index r)))"
  by (simp add: lookup_simps split: option.split)

lemma lookup_type:
  "map_of (actionObject r) ''_type'' = (if typ_r r = [] then None else Some (OString (typ_r r)))"
  by (simp add: lookup_simps split: option.split)

lemma lookup_id:
  "map_of (actionObject r) ''_id'' = (if id_r r = [] then None else Some (OString (id_r r)))"
  by (simp add: lookup_simps split: option.split)

lemma lookup_routing:
  "map_of (actionObject r) ''_routing'' =
     (if routing r = [] then None else Some (OString (routing r)))"
  by (simp add: lookup_simps split: option.split)

lemma lookup_parent:
  "map_of (actionObject r) ''_parent'' =
     (if parent r = [] then None else Some (OString (parent r)))"
  by (simp add: lookup_simps split: option.split)

lemma lookup_version:
  "map_of (actionObject r) ''_version'' =
     (if 0 <s version r then Some (ONumber (sint (version r))) else None)"
  by (simp add: lookup_simps split: option.split)

lemma lookup_version_type:
  "map_of (actionObject r) ''_version_type'' =
     (if versionType r = [] then None else Some (OString (versionType r)))"
  by (simp add: lookup_simps split: option.split)

lemma lookup_retry_on_conflict:
  "map_of (actionObject r) ''_retry_on_conflict'' = map_option ONumber (retryOnConflict r)"
  by (simp add: lookup_simps split: option.split)

lemma lookup_ttl:
  "map_of (actionObject r) ''_ttl'' = (if ttl r = [] then None else Some (OString (ttl r)))"
  by (simp add: lookup_simps split: option.split)

lemma lookup_pipeline:
  "map_of (actionObject r) ''pipeline'' =
     (if pipeline r = [] then None else Some (OString (pipeline r)))"
  by (simp add: lookup_simps split: option.split)

lemma lookup_other: "k \<notin> set key_table \<Longrightarrow> map_of (actionObject r) k = None"
  by (simp add: key_table_def lookup_simps split: option.split)

lemma keys_actionObject: "set (map fst (actionObject r)) \<subseteq> set key_table"
proof
  fix k
  assume "k \<in> set (map fst (actionObject r))"
  then obtain v where "(k, v) \<in> set (actionObject r)"
    by auto
  then have "map_of (actionObject r) k = Some v"
    by (simp add: member_actionObject)
  then show "k \<in> set key_table"
    using lookup_other [of k r] by auto
qed

subsection \<open>Source on a request with and without memoized lines\<close>

lemma Source_cached: "source r = Some ls \<Longrightarrow> Source q enc r = (Inr ls, r)"
  by (simp add: Source_def)

lemma Source_fresh:
  "source r = None \<Longrightarrow>
     Source q enc r =
       (case docLine enc (doc r) of
          Inl f \<Rightarrow> (Inl f, r)
        | Inr body \<Rightarrow>
            (Inr [compact q (ordered (command r)), body],
             r\<lparr>source := Some [compact q (ordered (command r)), body]\<rparr>))"
  by (simp add: Source_def json_Marshal_def Let_def split: sum.split)

lemma command_source_update [simp]: "command (r\<lparr>source := s\<rparr>) = command r"
  by (simp add: command_def indexCommand_def)

lemma encodeLines_eq:
  "encodeLines q enc r =
     (case docLine enc (doc r) of
        Inl f \<Rightarrow> Inl f
      | Inr body \<Rightarrow> Inr [compact q (ordered (command r)), body])"
  by (simp add: encodeLines_def Source_fresh split: sum.split)

lemma encodeLines_source_update [simp]:
  "encodeLines q enc (r\<lparr>source := s\<rparr>) = encodeLines q enc r"
  by (simp add: encodeLines_def)

lemma Source_fresh_fst: "source r = None \<Longrightarrow> fst (Source q enc r) = encodeLines q enc r"
  by (simp add: encodeLines_eq Source_fresh split: sum.split)

lemma cache_ok_Source: "cache_ok q enc r \<Longrightarrow> cache_ok q enc (snd (Source q enc r))"
proof (cases "source r")
  case None
  then show ?thesis
    by (simp add: cache_ok_def Source_fresh encodeLines_eq split: sum.split)
next
  case (Some ls)
  assume "cache_ok q enc r"
  with Some show ?thesis
    by (simp add: Source_cached)
qed

lemma snd_String: "snd (String q enc r) = snd (Source q enc r)"
  by (simp add: String_def split: prod.split sum.split failure.split)

lemmas setter_defs =
  Index_def Type_def Id_r_def OpType_def Routing_def Parent_def Version_def VersionType_def
  Doc_def RetryOnConflict_def TTL_def Pipeline_def

lemma setter_clears: "is_setter c \<Longrightarrow> source (invoke q enc r c) = None"
  by (cases c) (simp_all add: setter_defs)

lemma cache_ok_invoke: "cache_ok q enc r \<Longrightarrow> cache_ok q enc (invoke q enc r c)"
proof (cases "is_setter c")
  case True
  then show ?thesis
    by (simp add: cache_ok_def setter_clears)
next
  case False
  assume "cache_ok q enc r"
  with False show ?thesis
    by (cases c) (simp_all add: cache_ok_Source snd_String)
qed

lemma cache_ok_run: "cache_ok q enc (run q enc cs)"
proof (induction cs rule: rev_induct)
  case Nil
  show ?case
    by (simp add: run_def cache_ok_def NewBulkStringRequest_def)
next
  case (snoc c cs)
  then show ?case
    by (simp add: run_def cache_ok_invoke)
qed

lemma Source_cache_ok:
  "cache_ok q enc r \<Longrightarrow> fst (Source q enc r) = encodeLines q enc r"
  by (cases "source r") (simp_all add: cache_ok_def Source_cached Source_fresh_fst)

lemma Source_run: "fst (Source q enc (run q enc cs)) = encodeLines q enc (run q enc cs)"
  by (rule Source_cache_ok) (rule cache_ok_run)

lemma Source_run_lines:
  assumes "fst (Source q enc (run q enc cs)) = Inr ls"
  shows "\<exists>body. docLine enc (doc (run q enc cs)) = Inr body \<and>
           ls = [compact q (ordered (command (run q enc cs))), body]"
  using assms by (auto simp: Source_run encodeLines_eq split: sum.splits)

lemma key_table_cases:
  "k \<in> set key_table \<Longrightarrow> k = ''_index'' \<or> k = ''_type'' \<or> k = ''_id'' \<or> k = ''_routing''
      \<or> k = ''_parent'' \<or> k = ''_version'' \<or> k = ''_version_type''
      \<or> k = ''_retry_on_conflict'' \<or> k = ''_ttl'' \<or> k = ''pipeline''"
  by (simp add: key_table_def)

lemmas lookup_table =
  lookup_index lookup_type lookup_id lookup_routing lookup_parent lookup_version
  lookup_version_type lookup_retry_on_conflict lookup_ttl lookup_pipeline

lemma actionObject_value:
  assumes "(k, v) \<in> set (actionObject r)"
  shows "(\<exists>s. s \<noteq> [] \<and> v = OString s) \<or> (\<exists>n. v = ONumber n)"
proof -
  from assms have m: "map_of (actionObject r) k = Some v"
    by (simp add: member_actionObject)
  then have "k \<in> set key_table"
    using lookup_other [of k r] by auto
  from key_table_cases [OF this] m show ?thesis
    by (elim disjE) (auto simp: lookup_table split: if_splits)
qed

lemma keys_ascending_command: "keys_ascending (ordered (command r))"
proof -
  have "keys_ascending v" if "(k, v) \<in> set (actionObject r)" for k v
    using actionObject_value [OF that] by auto
  then show ?thesis
    by (auto simp: ordered_command sorted_actionObject list_all_iff)
qed

subsection \<open>Runs\<close>

lemma run_Nil: "run q enc [] = NewBulkStringRequest"
  by (simp add: run_def)

lemma run_snoc: "run q enc (cs @ [c]) = invoke q enc (run q enc cs) c"
  by (simp add: run_def)

lemma run_single: "run q enc [c] = invoke q enc NewBulkStringRequest c"
  by (simp add: run_def)

lemma command_Doc [simp]: "command (Doc r d) = command r"
  by (simp add: command_def indexCommand_def Doc_def)

lemma doc_Doc [simp]: "doc (Doc r d) = d"
  by (simp add: Doc_def)

lemma doc_New [simp]: "doc NewBulkStringRequest = NoDoc"
  by (simp add: NewBulkStringRequest_def)

lemma String_eq:
  "fst (String q enc r) =
     (case fst (Source q enc r) of
        Inl (Error e) \<Rightarrow> Inr (''error: '' @ e)
      | Inl Panic \<Rightarrow> Inl Panic
      | Inr ls \<Rightarrow> Inr (join ls [CHR 0x0A]))"
  by (simp add: String_def split: prod.split sum.split failure.split)

lemma Source_state: "\<exists>s. snd (Source q enc r) = r\<lparr>source := s\<rparr>"
proof (cases "source r")
  case None
  then show ?thesis
    by (cases "docLine enc (doc r)") (auto simp: Source_fresh intro: exI [of _ None])
next
  case (Some ls)
  then have "snd (Source q enc r) = r\<lparr>source := Some ls\<rparr>"
    by (simp add: Source_cached)
  then show ?thesis ..
qed

lemma Source_keeps_fields:
  "retryOnConflict (snd (Source q enc r)) = retryOnConflict r"
  "opType (snd (Source q enc r)) = opType r"
  using Source_state [of q enc r] by auto

lemma Source_setter:
  "is_setter c \<Longrightarrow> fst (Source q enc (invoke q enc r c)) = encodeLines q enc (invoke q enc r c)"
  by (simp add: Source_fresh_fst setter_clears)

lemma Source_after_setter:
  "fst (Source q enc (Index r s)) = encodeLines q enc (r\<lparr>index := s\<rparr>)"
  "fst (Source q enc (Type r s)) = encodeLines q enc (r\<lparr>typ_r := s\<rparr>)"
  "fst (Source q enc (Id_r r s)) = encodeLines q enc (r\<lparr>id_r := s\<rparr>)"
  "fst (Source q enc (OpType r s)) = encodeLines q enc (r\<lparr>opType := s\<rparr>)"
  "fst (Source q enc (Routing r s)) = encodeLines q enc (r\<lparr>routing := s\<rparr>)"
  "fst (Source q enc (Parent r s)) = encodeLines q enc (r\<lparr>parent := s\<rparr>)"
  "fst (Source q enc (Version r w)) = encodeLines q enc (r\<lparr>version := w\<rparr>)"
  "fst (Source q enc (VersionType r s)) = encodeLines q enc (r\<lparr>versionType := s\<rparr>)"
  "fst (Source q enc (Doc r d)) = encodeLines q enc (r\<lparr>doc := d\<rparr>)"
  "fst (Source q enc (RetryOnConflict r n)) = encodeLines q enc (r\<lparr>retryOnConflict := Some n\<rparr>)"
  "fst (Source q enc (TTL r s)) = encodeLines q enc (r\<lparr>ttl := s\<rparr>)"
  "fst (Source q enc (Pipeline r s)) = encodeLines q enc (r\<lparr>pipeline := s\<rparr>)"
  by (simp_all add: setter_defs Source_fresh_fst)

lemma Source_twice:
  assumes "Source q enc r = (Inr ls, r')"
  shows "Source q' enc' r' = (Inr ls, r')"
proof -
  have "source r' = Some ls"
  proof (cases "source r")
    case None
    with assms show ?thesis
      by (auto simp: Source_fresh split: sum.splits)
  next
    case (Some ks)
    with assms show ?thesis
      by (simp add: Source_cached)
  qed
  then show ?thesis
    by (rule Source_cached)
qed

lemma Source_failure:
  assumes "fst (Source q enc r) = Inl f"
  shows "source r = None" and "snd (Source q enc r) = r"
proof -
  show "source r = None"
  proof (cases "source r")
    case (Some ls)
    with assms show ?thesis by (simp add: Source_cached)
  qed simp
  with assms show "snd (Source q enc r) = r"
    by (auto simp: Source_fresh split: sum.splits)
qed

lemma Source_run_doc:
  assumes "r = run q enc cs"
  shows "fst (Source q enc r) =
    (case doc r of
       NoDoc \<Rightarrow> Inr [compact q (ordered (command r)), ''{}'']
     | Structured v \<Rightarrow>
        (case enc v of
           Inl e \<Rightarrow> Inl (Error e)
         | Inr body \<Rightarrow> Inr [compact q (ordered (command r)), body])
     | RawMessage t \<Rightarrow> Inr [compact q (ordered (command r)), t]
     | RawMessagePtr None \<Rightarrow> Inl Panic
     | RawMessagePtr (Some t) \<Rightarrow> Inr [compact q (ordered (command r)), t]
     | StringDoc t \<Rightarrow> Inr [compact q (ordered (command r)), t]
     | StringPtr None \<Rightarrow> Inl Panic
     | StringPtr (Some t) \<Rightarrow> Inr [compact q (ordered (command r)), t])"
  unfolding assms Source_run encodeLines_eq docLine_def
  by (simp split: payload.split option.split sum.split)

subsection \<open>Fields that a run leaves alone\<close>

lemma retryOnConflict_invoke:
  "\<forall>n. c \<noteq> CallRetryOnConflict n \<Longrightarrow>
     retryOnConflict (invoke q enc r c) = retryOnConflict r"
  by (cases c) (simp_all add: setter_defs Source_keeps_fields snd_String)

lemma retryOnConflict_foldl:
  "\<forall>n. CallRetryOnConflict n \<notin> set cs \<Longrightarrow>
     retryOnConflict (foldl (invoke q enc) r cs) = retryOnConflict r"
proof (induction cs arbitrary: r)
  case Nil
  show ?case by simp
next
  case (Cons c cs)
  then have "retryOnConflict (invoke q enc r c) = retryOnConflict r"
    by (intro retryOnConflict_invoke) auto
  with Cons show ?case by simp
qed

lemma retryOnConflict_never:
  "\<forall>n. CallRetryOnConflict n \<notin> set cs \<Longrightarrow> retryOnConflict (run q enc cs) = None"
  by (simp add: run_def retryOnConflict_foldl NewBulkStringRequest_def)

lemma retryOnConflict_latest:
  "\<forall>m. CallRetryOnConflict m \<notin> set cs2 \<Longrightarrow>
     retryOnConflict (run q enc (cs1 @ CallRetryOnConflict n # cs2)) = Some n"
  by (simp add: run_def retryOnConflict_foldl RetryOnConflict_def)

lemma opType_invoke:
  "\<forall>v. c \<noteq> CallOpType v \<Longrightarrow> opType (invoke q enc r c) = opType r"
  by (cases c) (simp_all add: setter_defs Source_keeps_fields snd_String)

lemma opType_foldl:
  "\<forall>v. CallOpType v \<in> set cs \<longrightarrow> v \<noteq> [] \<Longrightarrow> opType r \<noteq> [] \<Longrightarrow>
     opType (foldl (invoke q enc) r cs) \<noteq> []"
proof (induction cs arbitrary: r)
  case Nil
  then show ?case by simp
next
  case (Cons c cs)
  have "opType (invoke q enc r c) \<noteq> []"
  proof (cases "\<exists>v. c = CallOpType v")
    case True
    then obtain v where "c = CallOpType v" ..
    with Cons.prems(1) show ?thesis
      by (simp add: OpType_def)
  next
    case False
    with Cons.prems(2) show ?thesis
      by (simp add: opType_invoke)
  qed
  with Cons show ?case by simp
qed


subsection \<open>A member of the action object is a piece of line 1\<close>

lemma join_member:
  "x \<in> set xs \<Longrightarrow> \<exists>pre post. join xs sep = pre @ x @ post"
proof (induction xs sep rule: join.induct)
  case (1 sep)
  then show ?case by simp
next
  case (2 y sep)
  then have "join [y] sep = [] @ x @ []" by simp
  then show ?case by blast
next
  case (3 y z zs sep)
  show ?case
  proof (cases "x = y")
    case True
    then have "join (y # z # zs) sep = [] @ x @ (sep @ join (z # zs) sep)" by simp
    then show ?thesis by blast
  next
    case False
    with 3 obtain pre post where "join (z # zs) sep = pre @ x @ post" by auto
    then have "join (y # z # zs) sep = (y @ sep @ pre) @ x @ post" by simp
    then show ?thesis by blast
  qed
qed

lemma compact_member:
  assumes "(k, v) \<in> set kvs"
  shows "\<exists>pre post. compact q (OObject kvs) = pre @ q k @ '':'' @ compact q v @ post"
proof -
  have "q k @ '':'' @ compact q v \<in> set (map (\<lambda>(k, t). q k @ '':'' @ t) (map (map_prod id (compact q)) kvs))"
    using assms by force
  from join_member [OF this, of "'',''"] obtain pre post where
    "join (map (\<lambda>(k, t). q k @ '':'' @ t) (map (map_prod id (compact q)) kvs)) '','' =
       pre @ (q k @ '':'' @ compact q v) @ post"
    by blast
  then have "compact q (OObject kvs) = (''{'' @ pre) @ q k @ '':'' @ compact q v @ (post @ ''}'')"
    by simp
  then show ?thesis by blast
qed

lemma line1_member:
  assumes "(k, v) \<in> set (actionObject r)"
  shows "\<exists>pre post. compact q (ordered (command r)) = pre @ q k @ '':'' @ compact q v @ post"
proof -
  from compact_member [OF assms, of q] obtain pre post where
    inner: "compact q (OObject (actionObject r)) = pre @ q k @ '':'' @ compact q v @ post"
    by blast
  have "compact q (ordered (command r)) =
      ''{'' @ q (opType r) @ '':'' @ compact q (OObject (actionObject r)) @ ''}''"
    by (simp add: ordered_command)
  with inner have "compact q (ordered (command r)) =
      (''{'' @ q (opType r) @ '':'' @ pre) @ q k @ '':'' @ compact q v @ (post @ ''}'')"
    by simp
  then show ?thesis by blast
qed

lemma dec_int_0: "dec_int 0 = ''0''"
  by (simp add: dec_int_def dec_nat.simps digit_def)

subsection \<open>The examples evaluated\<close>

lemma run_calls1:
  "run quote sample_Marshal calls1 =
    \<lparr>index = ''index101'', typ_r = ''employee'', id_r = ''1'', opType = ''create'',
     routing = [], parent = [], version = 0, versionType = [],
     doc = Structured (Employee ''olivere'' ''santafe'' 56), pipeline = ''p1'',
     retryOnConflict = Some 0, ttl = [], source = None\<rparr>"
  by code_simp

lemma Source_calls1:
  \<open>fst (Source quote sample_Marshal (run quote sample_Marshal calls1)) =
     Inr [''{"create":{"_id":"1","_index":"index101","_retry_on_conflict":0,"_type":"employee","pipeline":"p1"}}'',
          ''{"user":"olivere","city":"santafe","age":56}'']\<close>
  by code_simp

lemma Source_run_calls1:
  "Source quote sample_Marshal (run quote sample_Marshal calls1) =
     (Inr lines1, (run quote sample_Marshal calls1)\<lparr>source := Some lines1\<rparr>)"
  by code_simp

lemma doc_calls1: "doc (run quote sample_Marshal calls1) = Structured (Employee ''olivere'' ''santafe'' 56)"
  by (simp add: run_calls1)

lemma calls1_split:
  "calls1 = [CallPipeline ''p1'', CallOpType ''create'', CallIndex ''index101'',
      CallType ''employee'', CallSource, CallId ''1'']
     @ CallRetryOnConflict 0 # [CallDoc (Structured (Employee ''olivere'' ''santafe'' 56))]"
  by (simp add: calls1_def)

lemma line1_new:
  \<open>compact quote (ordered (command (NewBulkStringRequest :: sample BulkStringRequest))) = ''{"index":{}}''\<close>
  by code_simp

lemma Source_Id_2:
  \<open>encodeLines quote sample_Marshal
     (invoke quote sample_Marshal ((run quote sample_Marshal calls1)\<lparr>source := Some lines1\<rparr>)
        (CallId ''2'')) =
    Inr [''{"create":{"_id":"2","_index":"index101","_retry_on_conflict":0,"_type":"employee","pipeline":"p1"}}'',
         ''{"user":"olivere","city":"santafe","age":56}'']\<close>
  by code_simp

lemma Source_Routing_x:
  \<open>encodeLines quote sample_Marshal
     (((run quote sample_Marshal calls1)\<lparr>source := Some lines1\<rparr>)\<lparr>routing := ''x''\<rparr>) =
    Inr [''{"create":{"_id":"1","_index":"index101","_retry_on_conflict":0,"_routing":"x","_type":"employee","pipeline":"p1"}}'',
         ''{"user":"olivere","city":"santafe","age":56}'']\<close>
  by code_simp

lemma Source_channel:
  "fst (Source quote sample_Marshal (run quote sample_Marshal [CallDoc (Structured Channel)])) =
     Inl (Error ''json: unsupported type: chan int'')"
  by code_simp

lemma Source_channel_pair:
  "Source quote sample_Marshal (run quote sample_Marshal [CallDoc (Structured Channel)]) =
     (Inl (Error ''json: unsupported type: chan int''),
      run quote sample_Marshal [CallDoc (Structured Channel)])"
  by code_simp

lemma Source_repaired:
  \<open>encodeLines quote sample_Marshal
     (invoke quote sample_Marshal (run quote sample_Marshal [CallDoc (Structured Channel)])
        (CallDoc (RawMessage ''{"a":1}''))) =
   Inr [''{"index":{}}'', ''{"a":1}'']\<close>
  by code_simp



text \<open>The cases of \<^verbatim>\<open>TestBulkStringRequestSerialization\<close>, with their expected lines.\<close>

lemma test_case_0:
  \<open>fst (Source quote sample_Marshal
     (run quote sample_Marshal [CallIndex ''index101'', CallType ''employee'', CallId ''1'',
        CallDoc (Structured (Employee ''olivere'' [] 0))])) =
   Inr [''{"index":{"_id":"1","_index":"index101","_type":"employee"}}'',
        ''{"user":"olivere","city":"","age":0}'']\<close>
  by code_simp

lemma test_case_1:
  \<open>fst (Source quote sample_Marshal
     (run quote sample_Marshal [CallOpType ''create'', CallIndex ''index101'',
        CallType ''employee'', CallId ''1'',
        CallDoc (Structured (Employee ''olivere'' ''santafe'' 56))])) =
   Inr [''{"create":{"_id":"1","_index":"index101","_type":"employee"}}'',
        ''{"user":"olivere","city":"santafe","age":56}'']\<close>
  by code_simp

lemma test_case_3:
  \<open>fst (Source quote sample_Marshal
     (run quote sample_Marshal [CallOpType ''index'', CallIndex ''index101'',
        CallType ''employee'', CallId ''1'', CallRetryOnConflict 42,
        CallDoc (Structured (Employee ''olivere'' [] 0))])) =
   Inr [''{"index":{"_id":"1","_index":"index101","_retry_on_conflict":42,"_type":"employee"}}'',
        ''{"user":"olivere","city":"","age":0}'']\<close>
  by code_simp

lemma test_case_4:
  \<open>fst (Source quote sample_Marshal
     (run quote sample_Marshal [CallOpType ''index'', CallIndex ''index101'',
        CallType ''employee'', CallId ''1'', CallPipeline ''my_pipeline'',
        CallDoc (Structured (Employee ''olivere'' [] 0))])) =
   Inr [''{"index":{"_id":"1","_index":"index101","_type":"employee","pipeline":"my_pipeline"}}'',
        ''{"user":"olivere","city":"","age":0}'']\<close>
  by code_simp

lemma test_case_5:
  \<open>fst (Source quote sample_Marshal
     (run quote sample_Marshal [CallOpType ''index'', CallIndex ''index101'',
        CallType ''employee'', CallId ''1'', CallTTL ''1m'',
        CallDoc (Structured (Employee ''olivere'' [] 0))])) =
   Inr [''{"index":{"_id":"1","_index":"index101","_ttl":"1m","_type":"employee"}}'',
        ''{"user":"olivere","city":"","age":0}'']\<close>
  by code_simp

section \<open>The claims\<close>

text \<open>
  The theorems about reachable states speak of \<open>run q enc cs\<close>, the request after any
  sequence \<open>cs\<close> of setter, \<^verbatim>\<open>Source\<close> and \<^verbatim>\<open>String\<close> calls on a new request. The
  members of the action object are \<open>actionObject r\<close>; \<open>map_of (actionObject r) k = None\<close>
  says that \<open>k\<close> is not one of its keys.
\<close>

text \<open>
  C1. In every reachable state, line 1 of \<^verbatim>\<open>Source\<close> is the compact text of an object
  with the single top-level key \<open>opType\<close> over the action object, and the keys ascend
  strictly in byte order at both nesting levels, whatever fields are set.
\<close>

theorem Source_line1_keys_ascending:
  assumes "r = run q enc cs" and "fst (Source q enc r) = Inr ls"
  shows "ls ! 0 = compact q (ordered (command r))
    \<and> ordered (command r) = OObject [(opType r, OObject (actionObject r))]
    \<and> sorted_wrt (<) (map fst [(opType r, OObject (actionObject r))])
    \<and> sorted_wrt (<) (map fst (actionObject r))
    \<and> keys_ascending (ordered (command r))"
proof -
  from assms obtain body where "ls = [compact q (ordered (command r)), body]"
    using Source_run_lines [of q enc cs ls] by auto
  then show ?thesis
    by (simp add: ordered_command [symmetric] keys_ascending_command sorted_actionObject)
qed

theorem Source_line1_keys_ascending_witness:
  \<open>fst (Source quote sample_Marshal (run quote sample_Marshal calls1)) =
     Inr [''{"create":{"_id":"1","_index":"index101","_retry_on_conflict":0,"_type":"employee","pipeline":"p1"}}'',
          ''{"user":"olivere","city":"santafe","age":56}'']
   \<and> sorted_wrt (<) (map fst (actionObject (run quote sample_Marshal calls1)))
   \<and> map fst (actionObject (run quote sample_Marshal calls1)) =
       [''_id'', ''_index'', ''_retry_on_conflict'', ''_type'', ''pipeline'']\<close>
proof -
  have "map fst (actionObject (run quote sample_Marshal calls1)) =
       [''_id'', ''_index'', ''_retry_on_conflict'', ''_type'', ''pipeline'']"
    by code_simp
  then show ?thesis
    using Source_line1_keys_ascending [OF refl Source_calls1] Source_calls1 by simp
qed

text \<open>
  C2. In every reachable state, line 1 is an object with exactly one top-level key,
  \<open>opType\<close>. Its value has the key of each optional string field exactly when the field
  is non-empty, with the field as value (a key is present exactly when \<open>map_of\<close> finds
  it); it has no key outside the table, and every value in it is a non-empty string or
  a number.
\<close>

theorem Source_line1_key_table:
  assumes "r = run q enc cs" and "fst (Source q enc r) = Inr ls"
  shows "ls ! 0 = compact q (OObject [(opType r, OObject (actionObject r))])
    \<and> map_of (actionObject r) ''_index'' = (if index r = [] then None else Some (OString (index r)))
    \<and> map_of (actionObject r) ''_type'' = (if typ_r r = [] then None else Some (OString (typ_r r)))
    \<and> map_of (actionObject r) ''_id'' = (if id_r r = [] then None else Some (OString (id_r r)))
    \<and> map_of (actionObject r) ''_routing'' =
         (if routing r = [] then None else Some (OString (routing r)))
    \<and> map_of (actionObject r) ''_parent'' =
         (if parent r = [] then None else Some (OString (parent r)))
    \<and> map_of (actionObject r) ''_version_type'' =
         (if versionType r = [] then None else Some (OString (versionType r)))
    \<and> map_of (actionObject r) ''_ttl'' = (if ttl r = [] then None else Some (OString (ttl r)))
    \<and> map_of (actionObject r) ''pipeline'' =
         (if pipeline r = [] then None else Some (OString (pipeline r)))
    \<and> (\<forall>k. (k \<in> set (map fst (actionObject r))) = (map_of (actionObject r) k \<noteq> None))
    \<and> set (map fst (actionObject r)) \<subseteq> set key_table
    \<and> (\<forall>(k, v) \<in> set (actionObject r).
          (\<exists>s. s \<noteq> [] \<and> v = OString s) \<or> (\<exists>n. v = ONumber n))"
proof -
  have "\<forall>k. (k \<in> set (map fst (actionObject r))) = (map_of (actionObject r) k \<noteq> None)"
    by (simp add: map_of_eq_None_iff)
  moreover
  from assms obtain body where "ls = [compact q (ordered (command r)), body]"
    using Source_run_lines [of q enc cs ls] by auto
  then have "ls ! 0 = compact q (OObject [(opType r, OObject (actionObject r))])"
    by (simp add: ordered_command)
  moreover have "\<forall>(k, v) \<in> set (actionObject r).
      (\<exists>s. s \<noteq> [] \<and> v = OString s) \<or> (\<exists>n. v = ONumber n)"
    using actionObject_value [of _ _ r] by blast
  ultimately show ?thesis
    using keys_actionObject [of r]
    by (simp only: lookup_table simp_thms)
qed

theorem Source_line1_key_table_witness:
  \<open>fst (Source quote sample_Marshal (run quote sample_Marshal calls1)) =
     Inr [''{"create":{"_id":"1","_index":"index101","_retry_on_conflict":0,"_type":"employee","pipeline":"p1"}}'',
          ''{"user":"olivere","city":"santafe","age":56}'']
   \<and> map_of (actionObject (run quote sample_Marshal calls1)) ''_index'' = Some (OString ''index101'')
   \<and> map_of (actionObject (run quote sample_Marshal calls1)) ''_routing'' = None
   \<and> set (map fst (actionObject (run quote sample_Marshal calls1))) \<subseteq> set key_table\<close>
  using Source_line1_key_table [OF refl Source_calls1] Source_calls1
  by (simp add: run_calls1)

text \<open>
  C3. In every reachable state, line 2 is \<^verbatim>\<open>{}\<close> when there is no payload, the encoder's
  text for a structured payload (its error is returned when it fails), and the payload
  itself, unchanged, for \<^verbatim>\<open>json.RawMessage\<close> and \<^verbatim>\<open>string\<close>, held by value or through a
  pointer. A nil pointer is none of these: dereferencing it panics.
\<close>

theorem Source_line2:
  assumes "r = run q enc cs"
  shows "fst (Source q enc r) =
    (case doc r of
       NoDoc \<Rightarrow> Inr [compact q (ordered (command r)), ''{}'']
     | Structured v \<Rightarrow>
        (case enc v of
           Inl e \<Rightarrow> Inl (Error e)
         | Inr body \<Rightarrow> Inr [compact q (ordered (command r)), body])
     | RawMessage t \<Rightarrow> Inr [compact q (ordered (command r)), t]
     | RawMessagePtr None \<Rightarrow> Inl Panic
     | RawMessagePtr (Some t) \<Rightarrow> Inr [compact q (ordered (command r)), t]
     | StringDoc t \<Rightarrow> Inr [compact q (ordered (command r)), t]
     | StringPtr None \<Rightarrow> Inl Panic
     | StringPtr (Some t) \<Rightarrow> Inr [compact q (ordered (command r)), t])"
  using assms by (rule Source_run_doc)

theorem Source_line2_witness:
  \<open>fst (Source quote sample_Marshal (run quote sample_Marshal [])) = Inr [''{"index":{}}'', ''{}'']
   \<and> fst (Source quote sample_Marshal
        (run quote sample_Marshal [CallDoc (Structured (Employee ''olivere'' [] 0))])) =
       Inr [''{"index":{}}'', ''{"user":"olivere","city":"","age":0}'']
   \<and> fst (Source quote sample_Marshal (run quote sample_Marshal [CallDoc (Structured Channel)])) =
       Inl (Error ''json: unsupported type: chan int'')
   \<and> fst (Source quote sample_Marshal (run quote sample_Marshal [CallDoc (RawMessage ''{"a":1}'')])) =
       Inr [''{"index":{}}'', ''{"a":1}'']
   \<and> fst (Source quote sample_Marshal
        (run quote sample_Marshal [CallDoc (StringPtr (Some ''not JSON''))])) =
       Inr [''{"index":{}}'', ''not JSON'']\<close>
proof -
  have e: \<open>sample_Marshal (Employee ''olivere'' [] 0) = Inr ''{"user":"olivere","city":"","age":0}''\<close>
    by code_simp
  show ?thesis
    using Source_line2 [OF refl, of quote sample_Marshal "[]"]
      Source_line2 [OF refl, of quote sample_Marshal "[CallDoc (Structured (Employee ''olivere'' [] 0))]"]
      Source_line2 [OF refl, of quote sample_Marshal "[CallDoc (Structured Channel)]"]
      Source_line2 [OF refl, of quote sample_Marshal "[CallDoc (RawMessage ''{\"a\":1}'')]"]
      Source_line2 [OF refl, of quote sample_Marshal "[CallDoc (StringPtr (Some ''not JSON''))]"]
    by (simp add: run_Nil run_single line1_new e del: sample_Marshal.simps(1))
qed

text \<open>
  C4 does not hold for every payload: with a nil \<^verbatim>\<open>*string\<close> as payload \<^verbatim>\<open>Source\<close> panics,
  and \<^verbatim>\<open>String\<close> with it.
\<close>

theorem String_nil_pointer_counterexample:
  "fst (Source quote sample_Marshal (run quote sample_Marshal [CallDoc (StringPtr None)])) = Inl Panic
   \<and> fst (String quote sample_Marshal (run quote sample_Marshal [CallDoc (StringPtr None)])) = Inl Panic"
  by (simp add: run_single Source_def String_def Doc_def NewBulkStringRequest_def docLine_def
      json_Marshal_def)

text \<open>
  C4, amended. In every reachable state whose payload is not a nil pointer: \<^verbatim>\<open>Source\<close>
  returns an error exactly when the payload is structured and its encoding fails;
  encoding line 1 cannot fail; with any other payload \<^verbatim>\<open>Source\<close> returns two lines; and
  \<^verbatim>\<open>String\<close> returns the text \<^verbatim>\<open>error: \<close> followed by the message when \<^verbatim>\<open>Source\<close> returns an
  error, and line 1, a newline and line 2 otherwise.
\<close>

theorem Source_error_iff:
  assumes "r = run q enc cs" and "doc r \<noteq> RawMessagePtr None" and "doc r \<noteq> StringPtr None"
  shows "((\<exists>e. fst (Source q enc r) = Inl (Error e)) \<longleftrightarrow> (\<exists>v e. doc r = Structured v \<and> enc v = Inl e))
    \<and> (\<exists>line. json_Marshal q (command r) = Inr line)
    \<and> ((\<forall>v. doc r \<noteq> Structured v) \<longrightarrow> (\<exists>l1 l2. fst (Source q enc r) = Inr [l1, l2]))
    \<and> ((\<exists>e. fst (Source q enc r) = Inl (Error e) \<and> fst (String q enc r) = Inr (''error: '' @ e))
       \<or> (\<exists>l1 l2. fst (Source q enc r) = Inr [l1, l2]
             \<and> fst (String q enc r) = Inr (l1 @ [CHR 0x0A] @ l2)))"
  using assms(2,3) unfolding String_eq Source_run_doc [OF assms(1)]
  by (auto simp: json_Marshal_def split: payload.split option.split sum.split)

theorem Source_error_iff_witness:
  \<open>fst (Source quote sample_Marshal (run quote sample_Marshal [CallDoc (Structured Channel)])) =
     Inl (Error ''json: unsupported type: chan int'')
   \<and> fst (String quote sample_Marshal (run quote sample_Marshal [CallDoc (Structured Channel)])) =
     Inr ''error: json: unsupported type: chan int''
   \<and> fst (Source quote sample_Marshal (run quote sample_Marshal calls1)) = Inr lines1
   \<and> fst (String quote sample_Marshal (run quote sample_Marshal calls1)) =
     Inr (lines1 ! 0 @ [CHR 0x0A] @ lines1 ! 1)
   \<and> (\<forall>v. doc (run quote sample_Marshal [CallDoc (RawMessage ''{"a":1}'')]) \<noteq> Structured v)
   \<and> (\<exists>l1 l2. fst (Source quote sample_Marshal
         (run quote sample_Marshal [CallDoc (RawMessage ''{"a":1}'')])) = Inr [l1, l2])\<close>
proof -
  have d: "doc (run quote sample_Marshal [CallDoc (Structured Channel)]) = Structured Channel"
    by (simp add: run_single)
  have w: "doc (run quote sample_Marshal [CallDoc (RawMessage ''{\"a\":1}'')]) = RawMessage ''{\"a\":1}''"
    by (simp add: run_single)
  have l: "fst (Source quote sample_Marshal (run quote sample_Marshal calls1)) = Inr lines1"
    by (simp add: Source_run_calls1)
  have "fst (String quote sample_Marshal (run quote sample_Marshal [CallDoc (Structured Channel)])) =
     Inr ''error: json: unsupported type: chan int''"
    using Source_error_iff [OF refl, of quote sample_Marshal "[CallDoc (Structured Channel)]"]
    by (simp add: d Source_channel)
  moreover have "fst (String quote sample_Marshal (run quote sample_Marshal calls1)) =
     Inr (lines1 ! 0 @ [CHR 0x0A] @ lines1 ! 1)"
    using Source_error_iff [OF refl, of quote sample_Marshal calls1]
    by (auto simp: doc_calls1 l lines1_def)
  moreover have "\<exists>l1 l2. fst (Source quote sample_Marshal
      (run quote sample_Marshal [CallDoc (RawMessage ''{\"a\":1}'')])) = Inr [l1, l2]"
    using Source_error_iff [OF refl, of quote sample_Marshal "[CallDoc (RawMessage ''{\"a\":1}'')]"]
    by (simp add: w)
  ultimately show ?thesis
    using l Source_channel by (simp add: w)
qed

text \<open>
  C5. Each of the twelve setters clears \<^verbatim>\<open>r.source\<close>. In every reachable state the cache
  is correct or absent, so \<^verbatim>\<open>Source\<close> returns the encoding of the current fields. A
  second \<^verbatim>\<open>Source\<close> right after a successful one returns the same lines from the cache,
  whatever the encoders would compute; and \<^verbatim>\<open>Source\<close> after any setter returns the
  encoding of the fields as the setter left them: for each setter, the encoding of the
  request with that field set to the setter's argument, where the encoding is line 1
  from \<^verbatim>\<open>command\<close> and line 2 from the payload.
\<close>

theorem setters_clear_cache:
  "source (Index r s) = None \<and> source (Type r s) = None \<and> source (Id_r r s) = None
   \<and> source (OpType r s) = None \<and> source (Routing r s) = None \<and> source (Parent r s) = None
   \<and> source (Version r w) = None \<and> source (VersionType r s) = None \<and> source (Doc r d) = None
   \<and> source (RetryOnConflict r n) = None \<and> source (TTL r s) = None
   \<and> source (Pipeline r s) = None
   \<and> cache_ok q enc (run q enc cs)
   \<and> fst (Source q enc (run q enc cs)) = encodeLines q enc (run q enc cs)
   \<and> (\<forall>ls r'. Source q enc r = (Inr ls, r') \<longrightarrow> Source q' enc' r' = (Inr ls, r'))
   \<and> (\<forall>c. is_setter c \<longrightarrow>
         fst (Source q enc (invoke q enc r c)) = encodeLines q enc (invoke q enc r c))
   \<and> fst (Source q enc (Index r s)) = encodeLines q enc (r\<lparr>index := s\<rparr>)
   \<and> fst (Source q enc (Type r s)) = encodeLines q enc (r\<lparr>typ_r := s\<rparr>)
   \<and> fst (Source q enc (Id_r r s)) = encodeLines q enc (r\<lparr>id_r := s\<rparr>)
   \<and> fst (Source q enc (OpType r s)) = encodeLines q enc (r\<lparr>opType := s\<rparr>)
   \<and> fst (Source q enc (Routing r s)) = encodeLines q enc (r\<lparr>routing := s\<rparr>)
   \<and> fst (Source q enc (Parent r s)) = encodeLines q enc (r\<lparr>parent := s\<rparr>)
   \<and> fst (Source q enc (Version r w)) = encodeLines q enc (r\<lparr>version := w\<rparr>)
   \<and> fst (Source q enc (VersionType r s)) = encodeLines q enc (r\<lparr>versionType := s\<rparr>)
   \<and> fst (Source q enc (Doc r d)) = encodeLines q enc (r\<lparr>doc := d\<rparr>)
   \<and> fst (Source q enc (RetryOnConflict r n)) =
       encodeLines q enc (r\<lparr>retryOnConflict := Some n\<rparr>)
   \<and> fst (Source q enc (TTL r s)) = encodeLines q enc (r\<lparr>ttl := s\<rparr>)
   \<and> fst (Source q enc (Pipeline r s)) = encodeLines q enc (r\<lparr>pipeline := s\<rparr>)
   \<and> encodeLines q enc r =
       (case docLine enc (doc r) of
          Inl f \<Rightarrow> Inl f
        | Inr body \<Rightarrow> Inr [compact q (ordered (command r)), body])"
proof -
  have cleared: "source (Index r s) = None \<and> source (Type r s) = None \<and> source (Id_r r s) = None
     \<and> source (OpType r s) = None \<and> source (Routing r s) = None \<and> source (Parent r s) = None
     \<and> source (Version r w) = None \<and> source (VersionType r s) = None \<and> source (Doc r d) = None
     \<and> source (RetryOnConflict r n) = None \<and> source (TTL r s) = None
     \<and> source (Pipeline r s) = None"
    by (simp add: setter_defs)
  have twice: "\<forall>ls r'. Source q enc r = (Inr ls, r') \<longrightarrow> Source q' enc' r' = (Inr ls, r')"
    using Source_twice by blast
  have fresh: "\<forall>c. is_setter c \<longrightarrow>
      fst (Source q enc (invoke q enc r c)) = encodeLines q enc (invoke q enc r c)"
    using Source_setter by blast
  show ?thesis
    by (intro conjI cleared [THEN conjunct1] twice fresh cache_ok_run Source_run
        Source_after_setter encodeLines_eq)
      (simp_all add: setter_defs)
qed

theorem setters_clear_cache_witness:
  \<open>Source quote sample_Marshal (run quote sample_Marshal calls1) =
     (Inr lines1, (run quote sample_Marshal calls1)\<lparr>source := Some lines1\<rparr>)
   \<and> Source quote sample_Marshal ((run quote sample_Marshal calls1)\<lparr>source := Some lines1\<rparr>) =
     (Inr lines1, (run quote sample_Marshal calls1)\<lparr>source := Some lines1\<rparr>)
   \<and> is_setter (CallId ''2'' :: sample call)
   \<and> fst (Source quote sample_Marshal
        (invoke quote sample_Marshal ((run quote sample_Marshal calls1)\<lparr>source := Some lines1\<rparr>)
           (CallId ''2''))) =
      Inr [''{"create":{"_id":"2","_index":"index101","_retry_on_conflict":0,"_type":"employee","pipeline":"p1"}}'',
           ''{"user":"olivere","city":"santafe","age":56}'']
   \<and> fst (Source quote sample_Marshal
        (Routing ((run quote sample_Marshal calls1)\<lparr>source := Some lines1\<rparr>) ''x'')) =
      Inr [''{"create":{"_id":"1","_index":"index101","_retry_on_conflict":0,"_routing":"x","_type":"employee","pipeline":"p1"}}'',
           ''{"user":"olivere","city":"santafe","age":56}'']\<close>
proof -
  let ?r = "run quote sample_Marshal calls1"
  let ?r' = "?r\<lparr>source := Some lines1\<rparr>"
  have s: "is_setter (CallId ''2'' :: sample call)"
    by simp
  from setters_clear_cache [of ?r _ _ _ _ quote sample_Marshal calls1 quote sample_Marshal]
  have "Source quote sample_Marshal ?r = (Inr lines1, ?r') \<longrightarrow>
      Source quote sample_Marshal ?r' = (Inr lines1, ?r')"
    by blast
  moreover from setters_clear_cache [of ?r' _ _ _ _ quote sample_Marshal calls1 quote sample_Marshal]
  have "is_setter (CallId ''2'' :: sample call) \<longrightarrow>
      fst (Source quote sample_Marshal (invoke quote sample_Marshal ?r' (CallId ''2''))) =
      encodeLines quote sample_Marshal (invoke quote sample_Marshal ?r' (CallId ''2''))"
    by blast
  moreover
  from setters_clear_cache [of ?r' "''x''" _ _ _ quote sample_Marshal calls1 quote sample_Marshal]
  have "fst (Source quote sample_Marshal (Routing ?r' ''x'')) =
      encodeLines quote sample_Marshal (?r'\<lparr>routing := ''x''\<rparr>)"
    by blast
  ultimately show ?thesis
    using Source_run_calls1 s by (simp only: Source_Id_2 Source_Routing_x simp_thms)
qed

text \<open>
  C6. When \<^verbatim>\<open>RetryOnConflict\<close> was never called, the action object has no key
  \<^verbatim>\<open>_retry_on_conflict\<close>. When its latest call had the argument \<open>n\<close>, whatever other calls
  came before and after, the key is present with value \<open>n\<close>, and line 1 contains the
  encoded key, a colon and \<open>n\<close> in decimal; for \<open>n = 0\<close> that is \<^verbatim>\<open>0\<close>.
\<close>

theorem retry_on_conflict_presence:
  "((\<forall>m. CallRetryOnConflict m \<notin> set cs) \<longrightarrow>
       ''_retry_on_conflict'' \<notin> set (map fst (actionObject (run q enc cs))))
   \<and> ((\<forall>m. CallRetryOnConflict m \<notin> set cs2) \<longrightarrow>
       map_of (actionObject (run q enc (cs1 @ CallRetryOnConflict n # cs2))) ''_retry_on_conflict'' =
         Some (ONumber n)
       \<and> (\<forall>ls. fst (Source q enc (run q enc (cs1 @ CallRetryOnConflict n # cs2))) = Inr ls \<longrightarrow>
            (\<exists>pre post. ls ! 0 = pre @ q ''_retry_on_conflict'' @ '':'' @ dec_int n @ post)))
   \<and> dec_int 0 = ''0''"
proof -
  have absent: "''_retry_on_conflict'' \<notin> set (map fst (actionObject (run q enc cs)))"
    if "\<forall>m. CallRetryOnConflict m \<notin> set cs"
  proof
    assume "''_retry_on_conflict'' \<in> set (map fst (actionObject (run q enc cs)))"
    then obtain v where "(''_retry_on_conflict'', v) \<in> set (actionObject (run q enc cs))"
      by auto
    then have "map_of (actionObject (run q enc cs)) ''_retry_on_conflict'' = Some v"
      by (simp add: member_actionObject)
    with that show False
      by (simp add: lookup_retry_on_conflict retryOnConflict_never)
  qed
  define r where "r = run q enc (cs1 @ CallRetryOnConflict n # cs2)"
  have look: "map_of (actionObject r) ''_retry_on_conflict'' = Some (ONumber n)"
    if "\<forall>m. CallRetryOnConflict m \<notin> set cs2"
    using that by (simp add: r_def lookup_retry_on_conflict retryOnConflict_latest)
  have present: "\<exists>pre post. ls ! 0 = pre @ q ''_retry_on_conflict'' @ '':'' @ dec_int n @ post"
    if "\<forall>m. CallRetryOnConflict m \<notin> set cs2" and "fst (Source q enc r) = Inr ls" for ls
  proof -
    from look [OF that(1)] have "(''_retry_on_conflict'', ONumber n) \<in> set (actionObject r)"
      by (simp add: member_actionObject)
    from line1_member [OF this, of q] obtain pre post where
      "compact q (ordered (command r)) = pre @ q ''_retry_on_conflict'' @ '':'' @ dec_int n @ post"
      by auto
    moreover from that(2) obtain body where "ls = [compact q (ordered (command r)), body]"
      using Source_run_lines [of q enc "cs1 @ CallRetryOnConflict n # cs2" ls] by (auto simp: r_def)
    ultimately show ?thesis by auto
  qed
  from absent look present dec_int_0 show ?thesis
    unfolding r_def by blast
qed

theorem retry_on_conflict_presence_witness:
  \<open>''_retry_on_conflict'' \<notin>
      set (map fst (actionObject (run quote sample_Marshal [CallIndex ''index101''])))
   \<and> map_of (actionObject (run quote sample_Marshal calls1)) ''_retry_on_conflict'' = Some (ONumber 0)
   \<and> fst (Source quote sample_Marshal (run quote sample_Marshal calls1)) = Inr lines1
   \<and> (\<exists>pre post. lines1 ! 0 = pre @ quote ''_retry_on_conflict'' @ '':0'' @ post)\<close>
proof -
  have l: "fst (Source quote sample_Marshal (run quote sample_Marshal calls1)) = Inr lines1"
    by (simp add: Source_run_calls1)
  have a: "\<forall>m. CallRetryOnConflict m \<notin> set [CallIndex ''index101'' :: sample call]"
    and b: "\<forall>m. CallRetryOnConflict m \<notin> set [CallDoc (Structured (Employee ''olivere'' ''santafe'' 56))]"
    by simp_all
  from a retry_on_conflict_presence [of "[CallIndex ''index101'']" quote sample_Marshal]
  have "''_retry_on_conflict'' \<notin>
      set (map fst (actionObject (run quote sample_Marshal [CallIndex ''index101''])))"
    by blast
  moreover
  from b retry_on_conflict_presence [of _ quote sample_Marshal
      "[CallDoc (Structured (Employee ''olivere'' ''santafe'' 56))]"
      "[CallPipeline ''p1'', CallOpType ''create'', CallIndex ''index101'',
        CallType ''employee'', CallSource, CallId ''1'']" 0]
  have "map_of (actionObject (run quote sample_Marshal calls1)) ''_retry_on_conflict'' = Some (ONumber 0)
    \<and> (\<forall>ls. fst (Source quote sample_Marshal (run quote sample_Marshal calls1)) = Inr ls \<longrightarrow>
          (\<exists>pre post. ls ! 0 = pre @ quote ''_retry_on_conflict'' @ '':'' @ dec_int 0 @ post))"
    unfolding calls1_split [symmetric] by blast
  ultimately show ?thesis
    using l by (simp add: dec_int_0)
qed



text \<open>
  C8 does not hold: \<^verbatim>\<open>OpType\<close> stores any string, and after \<^verbatim>\<open>OpType("")\<close> the field is
  empty.
\<close>

theorem opType_empty_counterexample:
  "opType (run quote sample_Marshal [CallOpType []]) = []"
  by (simp add: run_single OpType_def)

text \<open>
  C8, amended. A new request has \<open>opType\<close> \<^verbatim>\<open>index\<close> and encodes line 1 with the single
  top-level key \<^verbatim>\<open>index\<close>; \<^verbatim>\<open>OpType\<close> stores its argument as it is; and \<open>opType\<close> is
  non-empty in every state reached by calls in which \<^verbatim>\<open>OpType\<close> is never given the empty
  string.
\<close>

theorem opType_nonempty:
  "opType (NewBulkStringRequest :: 'a BulkStringRequest) = ''index''
   \<and> fst (Source q enc (NewBulkStringRequest :: 'a BulkStringRequest)) =
       Inr [compact q (OObject [(''index'', OObject [])]), ''{}'']
   \<and> opType (OpType (r :: 'a BulkStringRequest) v) = v
   \<and> ((\<forall>v. CallOpType v \<in> set cs \<longrightarrow> v \<noteq> []) \<longrightarrow> opType (run q enc cs) \<noteq> [])"
proof -
  have "fst (Source q enc NewBulkStringRequest) =
       Inr [compact q (OObject [(''index'', OObject [])]), ''{}'']"
    by (simp add: Source_def NewBulkStringRequest_def json_Marshal_def docLine_def command_def
        indexCommand_def assign_if_def Let_def)
  moreover have "opType (run q enc cs) \<noteq> []" if "\<forall>v. CallOpType v \<in> set cs \<longrightarrow> v \<noteq> []"
    unfolding run_def using that by (rule opType_foldl) (simp add: NewBulkStringRequest_def)
  ultimately show ?thesis
    by (simp add: NewBulkStringRequest_def OpType_def)
qed

theorem opType_nonempty_witness:
  \<open>opType (run quote sample_Marshal calls1) \<noteq> []
   \<and> opType (run quote sample_Marshal calls1) = ''create''
   \<and> fst (Source quote sample_Marshal NewBulkStringRequest) = Inr [''{"index":{}}'', ''{}'']\<close>
proof -
  have a: "\<forall>v. CallOpType v \<in> set calls1 \<longrightarrow> v \<noteq> []"
    by (simp add: calls1_def)
  have c: \<open>compact quote (OObject [(''index'', OObject [])]) = ''{"index":{}}''\<close>
    by code_simp
  from a opType_nonempty [of quote sample_Marshal NewBulkStringRequest "[]" calls1] c show ?thesis
    by (simp add: run_calls1)
qed

text \<open>
  C9. When the encoder's text for a structured value is \<open>s\<close>, \<^verbatim>\<open>Source\<close> returns the same
  two lines, with \<open>s\<close> as line 2, whether the payload is the structured value, the bytes
  \<open>s\<close> or the string \<open>s\<close> (by value or through a pointer).
\<close>

theorem payload_forms_agree:
  assumes "enc v = Inr s"
  shows "fst (Source q enc (Doc r (Structured v))) = Inr [compact q (ordered (command r)), s]
    \<and> fst (Source q enc (Doc r (RawMessage s))) = Inr [compact q (ordered (command r)), s]
    \<and> fst (Source q enc (Doc r (RawMessagePtr (Some s)))) = Inr [compact q (ordered (command r)), s]
    \<and> fst (Source q enc (Doc r (StringDoc s))) = Inr [compact q (ordered (command r)), s]
    \<and> fst (Source q enc (Doc r (StringPtr (Some s)))) = Inr [compact q (ordered (command r)), s]"
proof -
  have "fst (Source q enc (Doc r d)) = encodeLines q enc (Doc r d)" for d
    by (rule Source_fresh_fst) (simp add: Doc_def)
  with assms show ?thesis
    by (simp add: encodeLines_eq docLine_def)
qed

theorem payload_forms_agree_witness:
  \<open>sample_Marshal (Employee ''olivere'' [] 0) = Inr ''{"user":"olivere","city":"","age":0}''
   \<and> fst (Source quote sample_Marshal
         (Doc NewBulkStringRequest (Structured (Employee ''olivere'' [] 0)))) =
       Inr [''{"index":{}}'', ''{"user":"olivere","city":"","age":0}'']
   \<and> fst (Source quote sample_Marshal
         (Doc NewBulkStringRequest (RawMessage ''{"user":"olivere","city":"","age":0}''))) =
       Inr [''{"index":{}}'', ''{"user":"olivere","city":"","age":0}'']
   \<and> fst (Source quote sample_Marshal
         (Doc NewBulkStringRequest (StringDoc ''{"user":"olivere","city":"","age":0}''))) =
       Inr [''{"index":{}}'', ''{"user":"olivere","city":"","age":0}'']\<close>
proof -
  have e: \<open>sample_Marshal (Employee ''olivere'' [] 0) = Inr ''{"user":"olivere","city":"","age":0}''\<close>
    by code_simp
  from payload_forms_agree [where enc = sample_Marshal and v = "Employee ''olivere'' [] 0"
      and q = quote and r = NewBulkStringRequest, OF e] e show ?thesis
    by (simp only: line1_new simp_thms)
qed

text \<open>
  C10. When \<^verbatim>\<open>Source\<close> fails, it leaves the request as it was, with nothing memoized: the
  next \<^verbatim>\<open>Source\<close>, at once or after any further call, encodes the fields as they then
  are.
\<close>

theorem Source_error_not_memoized:
  assumes "Source q enc r = (Inl f, r')"
  shows "source r' = None \<and> r' = r
    \<and> fst (Source q enc r') = encodeLines q enc r'
    \<and> (\<forall>c. fst (Source q enc (invoke q enc r' c)) = encodeLines q enc (invoke q enc r' c))"
proof -
  from assms have f: "fst (Source q enc r) = Inl f" and s: "snd (Source q enc r) = r'"
    by simp_all
  from Source_failure [OF f] s have none: "source r' = None" and same: "r' = r"
    by simp_all
  have "fst (Source q enc (invoke q enc r' c)) = encodeLines q enc (invoke q enc r' c)" for c
  proof (cases "is_setter c")
    case True
    then show ?thesis by (rule Source_setter)
  next
    case False
    then have "invoke q enc r' c = snd (Source q enc r')"
      by (cases c) (simp_all add: snd_String)
    with same s none show ?thesis
      by (simp add: Source_fresh_fst)
  qed
  with none same show ?thesis
    by (simp add: Source_fresh_fst)
qed

theorem Source_error_not_memoized_witness:
  \<open>Source quote sample_Marshal (run quote sample_Marshal [CallDoc (Structured Channel)]) =
     (Inl (Error ''json: unsupported type: chan int''),
      run quote sample_Marshal [CallDoc (Structured Channel)])
   \<and> source (run quote sample_Marshal [CallDoc (Structured Channel)]) = None
   \<and> fst (Source quote sample_Marshal
        (invoke quote sample_Marshal (run quote sample_Marshal [CallDoc (Structured Channel)])
           (CallDoc (RawMessage ''{"a":1}'')))) =
      Inr [''{"index":{}}'', ''{"a":1}'']\<close>
  using Source_error_not_memoized [OF Source_channel_pair] Source_channel_pair
  by (simp only: Source_repaired simp_thms)

end
